theory Spec2Isabelle
  imports Complex_Main "HOL-Library.Multiset" "HOL-Library.Sublist"
begin

section \<open>Storage strategy (storage\_strategy.py)\<close>

text \<open>
  Python floats are modelled as exact rationals and Python ints as \<open>int\<close>.
  Memory type names are byte strings; \<open>split_on\<close> and comparison with the
  ASCII literals of the source act on them as Python's \<open>str.split\<close> and
  \<open>==\<close> do.
\<close>

datatype StorageLocation = DB | RAG | CACHE | ARCHIVE

record StorageStrategy =
  primary_location :: StorageLocation
  secondary_locations :: "StorageLocation list"
  includes_rag :: bool
  includes_embedding :: bool
  ttl_seconds :: "int option"
  compression_enabled :: bool
  index_for_search :: bool

datatype py_error = ValueError | TypeError | KeyError

text \<open>The five entries of \<open>self.strategies\<close>.\<close>

definition high_value_frequent :: StorageStrategy where
  "high_value_frequent =
     \<lparr>primary_location = DB, secondary_locations = [RAG, CACHE],
      includes_rag = True, includes_embedding = True, ttl_seconds = None,
      compression_enabled = False, index_for_search = True\<rparr>"

definition high_value_infrequent :: StorageStrategy where
  "high_value_infrequent =
     \<lparr>primary_location = DB, secondary_locations = [ARCHIVE],
      includes_rag = False, includes_embedding = True, ttl_seconds = None,
      compression_enabled = True, index_for_search = True\<rparr>"

definition conversational :: StorageStrategy where
  "conversational =
     \<lparr>primary_location = DB, secondary_locations = [],
      includes_rag = False, includes_embedding = True, ttl_seconds = None,
      compression_enabled = False, index_for_search = True\<rparr>"

definition temporary :: StorageStrategy where
  "temporary =
     \<lparr>primary_location = CACHE, secondary_locations = [],
      includes_rag = False, includes_embedding = False, ttl_seconds = Some 86400,
      compression_enabled = False, index_for_search = False\<rparr>"

definition large_content :: StorageStrategy where
  "large_content =
     \<lparr>primary_location = DB, secondary_locations = [ARCHIVE],
      includes_rag = False, includes_embedding = True, ttl_seconds = None,
      compression_enabled = True, index_for_search = True\<rparr>"

text \<open>\<open>s.split(sep)\<close> for a one-character separator: every occurrence cuts.\<close>

fun split_on :: "char \<Rightarrow> string \<Rightarrow> string list" where
  "split_on sep [] = [[]]"
| "split_on sep (c # cs) =
     (if c = sep then [] # split_on sep cs
      else (case split_on sep cs of
              [] \<Rightarrow> [[c]]
            | w # ws \<Rightarrow> (c # w) # ws))"

definition get_default_strategy :: "rat \<Rightarrow> int \<Rightarrow> StorageStrategy" where
  "get_default_strategy importance content_size =
     (if importance \<ge> 8 then high_value_frequent
      else if importance \<ge> 6 then
        (if content_size > 1000 then large_content else high_value_infrequent)
      else if importance \<ge> 4 then conversational
      else temporary)"

definition determine_hierarchical_strategy ::
  "string \<Rightarrow> string \<Rightarrow> string \<Rightarrow> rat \<Rightarrow> int \<Rightarrow> StorageStrategy" where
  "determine_hierarchical_strategy major minor detail importance content_size =
     (if major = ''personal'' then
        (if minor = ''identity'' then high_value_frequent
         else if minor = ''preference'' then
           (if importance \<ge> 7 then high_value_frequent else high_value_infrequent)
         else if minor = ''profession'' then high_value_frequent
         else get_default_strategy importance content_size)
      else if major = ''knowledge'' then
        (if minor = ''skill'' then high_value_frequent
         else if minor = ''experience'' then
           (if content_size > 1000 then large_content else conversational)
         else if minor = ''fact'' then
           (if importance \<ge> 8 then high_value_infrequent
            else \<lparr>primary_location = DB, secondary_locations = [],
                   includes_rag = False, includes_embedding = True, ttl_seconds = None,
                   compression_enabled = False, index_for_search = True\<rparr>)
         else get_default_strategy importance content_size)
      else if major = ''temporal'' then
        (if minor = ''conversation'' then conversational
         else if minor = ''context'' then temporary
         else get_default_strategy importance content_size)
      else get_default_strategy importance content_size)"

definition determine_flat_strategy ::
  "string \<Rightarrow> rat \<Rightarrow> int \<Rightarrow> string option \<Rightarrow> StorageStrategy" where
  "determine_flat_strategy memory_type importance content_size access_pattern =
     (if memory_type = ''conversation'' then conversational
      else if memory_type = ''identity'' then high_value_frequent
      else if memory_type = ''preference'' then high_value_frequent
      else if memory_type = ''experience'' then
        (if content_size > 1000 then large_content else conversational)
      else if memory_type = ''context'' then temporary
      else get_default_strategy importance content_size)"

text \<open>
  \<open>major, minor, detail = memory_type.split("/")\<close> raises \<open>ValueError\<close> unless
  the split has exactly three parts.
\<close>

definition determine_strategy ::
  "string \<Rightarrow> rat \<Rightarrow> int \<Rightarrow> string option \<Rightarrow> py_error + StorageStrategy" where
  "determine_strategy memory_type importance content_size access_pattern =
     (if CHR ''/'' \<in> set memory_type then
        (case split_on CHR ''/'' memory_type of
           [major, minor, detail] \<Rightarrow>
             Inr (determine_hierarchical_strategy major minor detail importance content_size)
         | _ \<Rightarrow> Inl ValueError)
      else Inr (determine_flat_strategy memory_type importance content_size access_pattern))"

subsection \<open>Adaptive re-planning on a store of objects\<close>

text \<open>
  A \<open>StorageStrategy\<close> instance holds a reference to its list of secondary
  locations. The store keeps list objects and strategy objects apart; an
  address is an index into the store, and allocation appends, so a fresh
  address is the current length.
\<close>

record strategy_obj =
  o_primary_location :: StorageLocation
  o_secondary_locations :: nat
  o_includes_rag :: bool
  o_includes_embedding :: bool
  o_ttl_seconds :: "int option"
  o_compression_enabled :: bool
  o_index_for_search :: bool

record store =
  list_objs :: "StorageLocation list list"
  strategy_objs :: "strategy_obj list"

definition alloc_list :: "store \<Rightarrow> StorageLocation list \<Rightarrow> nat \<times> store" where
  "alloc_list h xs = (length (list_objs h), h\<lparr>list_objs := list_objs h @ [xs]\<rparr>)"

definition alloc_strategy :: "store \<Rightarrow> strategy_obj \<Rightarrow> nat \<times> store" where
  "alloc_strategy h s = (length (strategy_objs h), h\<lparr>strategy_objs := strategy_objs h @ [s]\<rparr>)"

definition list_append :: "store \<Rightarrow> nat \<Rightarrow> StorageLocation \<Rightarrow> store" where
  "list_append h a x = h\<lparr>list_objs := (list_objs h)[a := list_objs h ! a @ [x]]\<rparr>"

definition list_remove :: "store \<Rightarrow> nat \<Rightarrow> StorageLocation \<Rightarrow> store" where
  "list_remove h a x = h\<lparr>list_objs := (list_objs h)[a := remove1 x (list_objs h ! a)]\<rparr>"

definition set_compression :: "store \<Rightarrow> nat \<Rightarrow> bool \<Rightarrow> store" where
  "set_compression h r b =
     h\<lparr>strategy_objs := (strategy_objs h)[r := (strategy_objs h ! r)\<lparr>o_compression_enabled := b\<rparr>]\<rparr>"

definition set_includes_rag :: "store \<Rightarrow> nat \<Rightarrow> bool \<Rightarrow> store" where
  "set_includes_rag h r b =
     h\<lparr>strategy_objs := (strategy_objs h)[r := (strategy_objs h ! r)\<lparr>o_includes_rag := b\<rparr>]\<rparr>"

text \<open>The value of the strategy object at reference \<open>r\<close>.\<close>

definition strategy_at :: "store \<Rightarrow> nat \<Rightarrow> StorageStrategy" where
  "strategy_at h r =
     (let s = strategy_objs h ! r in
      \<lparr>primary_location = o_primary_location s,
       secondary_locations = list_objs h ! o_secondary_locations s,
       includes_rag = o_includes_rag s,
       includes_embedding = o_includes_embedding s,
       ttl_seconds = o_ttl_seconds s,
       compression_enabled = o_compression_enabled s,
       index_for_search = o_index_for_search s\<rparr>)"

text \<open>\<open>access_stats.get(key, default)\<close>: a missing key is \<open>None\<close>.\<close>

record access_stats =
  daily_access_count :: "rat option"
  days_since_last_access :: "rat option"
  search_hit_rate :: "rat option"

definition get_or :: "'a option \<Rightarrow> 'a \<Rightarrow> 'a" where
  "get_or v d = (case v of None \<Rightarrow> d | Some x \<Rightarrow> x)"

definition optimize_strategy :: "store \<Rightarrow> nat \<Rightarrow> access_stats \<Rightarrow> nat \<times> store" where
  "optimize_strategy h current_strategy stats =
     (let access_frequency = get_or (daily_access_count stats) 0;
          last_accessed_days = get_or (days_since_last_access stats) 0;
          hit_rate = get_or (search_hit_rate stats) 0;
          cur = strategy_objs h ! current_strategy;
          (l, h1) = alloc_list h (list_objs h ! o_secondary_locations cur);
          (optimized, h2) = alloc_strategy h1 (cur\<lparr>o_secondary_locations := l\<rparr>);
          h3 = (if access_frequency > 10 then
                  (if CACHE \<notin> set (list_objs h2 ! l) then list_append h2 l CACHE else h2)
                else if last_accessed_days > 30 then
                  (let ha = (if ARCHIVE \<notin> set (list_objs h2 ! l)
                             then list_append h2 l ARCHIVE else h2);
                       hb = (if CACHE \<in> set (list_objs ha ! l)
                             then list_remove ha l CACHE else ha)
                   in set_compression hb optimized True)
                else h2);
          h4 = (if hit_rate < 1 / 10 \<and> o_includes_rag (strategy_objs h3 ! optimized) then
                  (let hc = set_includes_rag h3 optimized False
                   in if RAG \<in> set (list_objs hc ! l) then list_remove hc l RAG else hc)
                else h3)
      in (optimized, h4))"

text \<open>A store with one strategy object, and a usage record, for evaluation.\<close>

definition demo_store :: store where
  "demo_store = \<lparr>list_objs = [[RAG, CACHE]],
        strategy_objs = [\<lparr>o_primary_location = DB, o_secondary_locations = 0,
           o_includes_rag = True, o_includes_embedding = True, o_ttl_seconds = None,
           o_compression_enabled = False, o_index_for_search = True\<rparr>]\<rparr>"

definition demo_stats :: access_stats where
  "demo_stats = \<lparr>daily_access_count = None, days_since_last_access = Some 45,
     search_hit_rate = Some 0\<rparr>"

section \<open>Index optimizer (vector\_index\_optimizer.py)\<close>

text \<open>
  The statistics record of \<open>_get_table_stats\<close>, restricted to the keys that
  \<open>_determine_index_strategy\<close> and \<open>_apply_index_strategy\<close> read. The
  user distribution is a dictionary from bucket name to number of users, kept
  as an association list in insertion order; \<open>None\<close> is an absent key.
\<close>

record table_stats =
  row_count :: int
  unique_users :: int
  user_distribution :: "(string \<times> int) list option"
  current_indexes :: "string list"

text \<open>
  The bucket of one user in the SQL of \<open>_get_table_stats\<close>
  (\<open>CASE WHEN memory_count < 10 THEN 'light' ...\<close>).
\<close>

definition user_type :: "int \<Rightarrow> string" where
  "user_type memory_count =
     (if memory_count < 10 then ''light''
      else if memory_count < 100 then ''medium''
      else if memory_count < 1000 then ''heavy''
      else ''power'')"

text \<open>
  The strategy dictionary by its \<open>type\<close> key, with the numeric entries of
  each type; the \<open>reason\<close> and \<open>details\<close> message strings are left out.
\<close>

datatype index_strategy =
    NoIndex
  | IvfflatBasic (lists: int) (probes: int)
  | IvfflatOptimized (lists: int) (probes: int) (user_optimized: bool)
  | PartitionedIvfflat (lists_per_partition: int) (probes: int)
  | Hnsw (m: int) (ef_construction: int) (ef_search: int)

definition dict_get :: "(string \<times> int) list \<Rightarrow> string \<Rightarrow> int \<Rightarrow> int" where
  "dict_get d k dflt = (case map_of d k of None \<Rightarrow> dflt | Some v \<Rightarrow> v)"

definition power_users :: "table_stats \<Rightarrow> int" where
  "power_users stats =
     (let user_dist = get_or (user_distribution stats) []
      in dict_get user_dist ''power'' 0 + dict_get user_dist ''heavy'' 0)"

definition total_users :: "table_stats \<Rightarrow> int" where
  "total_users stats =
     (let user_dist = get_or (user_distribution stats) []
      in if user_dist \<noteq> [] then sum_list (map snd user_dist) else unique_users stats)"

definition power_user_ratio :: "table_stats \<Rightarrow> rat" where
  "power_user_ratio stats =
     (if total_users stats > 0
      then rat_of_int (power_users stats) / rat_of_int (total_users stats) else 0)"

text \<open>
  \<open>int(row_count / k)\<close> is reached only with \<open>row_count \<ge> 1000\<close>, where the
  truncated float quotient is \<open>row_count div k\<close>.
\<close>

definition determine_index_strategy :: "table_stats \<Rightarrow> index_strategy" where
  "determine_index_strategy stats =
     (if row_count stats < 1000 then NoIndex
      else if row_count stats < 10000 then
        IvfflatBasic (max (row_count stats div 100) 10) 5
      else if row_count stats < 100000 then
        (if power_user_ratio stats > 2 / 10
         then IvfflatOptimized (max (row_count stats div 500) 50) 20
                (power_user_ratio stats > 2 / 10)
         else IvfflatOptimized (max (row_count stats div 1000) 30) 10
                (power_user_ratio stats > 2 / 10))
      else if unique_users stats < 1000 then PartitionedIvfflat 100 15
      else Hnsw (if row_count stats < 500000 then 16 else 32)
                (if row_count stats < 500000 then 200 else 400) 100)"

text \<open>
  The SQL statements the memory service sends to the database, by kind. The
  vector index of the optimizer is named \<open>idx_<table>_embedding_optimized\<close>.
\<close>

datatype stmt =
    SelectEmbeddingColumn string
  | SelectAtttypmod string
  | DropTableIfExistsCascade string
  | CreateTable string int "(string \<times> string) list"
  | CreateIndexGinMetadata string
  | CreateIndexCreatedAtDesc string
  | CreateIndexUserId string
  | CreateIndexIvfflatBasic string int
  | SelectTableStats string
  | DropIndexIfExistsOptimized string
  | CreateIndexIvfflatOptimized string int
  | CreateIndexHnswOptimized string int int
  | SetIvfflatProbes int
  | SetHnswEfSearch int
  | CreateIndexUserImportance string
  | CreateIndexUserEmbedding string
  | Analyze string

text \<open>
  \<open>_apply_index_strategy\<close>, as the list of statements it sends, in order.
  \<open>call_tool\<close> turns every failure into a response and never raises, so
  each branch runs to its end.
\<close>

definition apply_index_strategy :: "string \<Rightarrow> index_strategy \<Rightarrow> table_stats \<Rightarrow> stmt list" where
  "apply_index_strategy table_name strategy stats =
     (if strategy \<noteq> NoIndex \<or> current_indexes stats \<noteq> []
      then [DropIndexIfExistsOptimized table_name] else [])
     @ (case strategy of
          NoIndex \<Rightarrow> []
        | IvfflatBasic l p \<Rightarrow>
            [CreateIndexIvfflatOptimized table_name l, SetIvfflatProbes p, Analyze table_name]
        | IvfflatOptimized l p uo \<Rightarrow>
            [CreateIndexIvfflatOptimized table_name l, SetIvfflatProbes p]
            @ (if uo then [CreateIndexUserImportance table_name] else [])
            @ [Analyze table_name]
        | Hnsw m' efc efs \<Rightarrow>
            [CreateIndexHnswOptimized table_name m' efc, SetHnswEfSearch efs, Analyze table_name]
        | PartitionedIvfflat lpp p \<Rightarrow>
            [CreateIndexIvfflatOptimized table_name (lpp * 10),
             CreateIndexUserEmbedding table_name, Analyze table_name])"

text \<open>Statistics of a table of 10000 rows: ten users with 999 rows, ten with one.\<close>

definition heavy_stats :: table_stats where
  "heavy_stats = \<lparr>row_count = 10000, unique_users = 20,
     user_distribution = Some [(''heavy'', 10), (''light'', 10)], current_indexes = []\<rparr>"

definition stats_of :: "int \<Rightarrow> int \<Rightarrow> (string \<times> int) list \<Rightarrow> table_stats" where
  "stats_of n u d = \<lparr>row_count = n, unique_users = u,
     user_distribution = Some d, current_indexes = []\<rparr>"

section \<open>Hierarchical classifier (hierarchical\_memory\_types.py)\<close>

text \<open>
  A Python \<open>str\<close> that may hold any text is a list of code points. ASCII
  literals are written through \<open>asc\<close>, others by their code points.
  Python's \<open>str.lower\<close> is a function of the standard library; the
  classifier takes it as the parameter \<open>lower\<close>.
\<close>

type_synonym ustr = "int list"

definition asc :: "string \<Rightarrow> ustr" where
  "asc s = map of_char s"

text \<open>\<open>k in s\<close> for strings, and \<open>s.startswith(k)\<close> as \<open>prefix k s\<close>.\<close>

fun contains :: "ustr \<Rightarrow> ustr \<Rightarrow> bool" where
  "contains k [] = (k = [])"
| "contains k (c # cs) = (prefix k (c # cs) \<or> contains k cs)"

text \<open>The code points for which \<open>str.isspace\<close> holds; \<open>str.split()\<close> cuts at their runs.\<close>

definition is_space :: "int \<Rightarrow> bool" where
  "is_space c \<longleftrightarrow>
     (0x09 \<le> c \<and> c \<le> 0x0D) \<or> (0x1C \<le> c \<and> c \<le> 0x20) \<or> c = 0x85 \<or> c = 0xA0
     \<or> c = 0x1680 \<or> (0x2000 \<le> c \<and> c \<le> 0x200A) \<or> c = 0x2028 \<or> c = 0x2029
     \<or> c = 0x202F \<or> c = 0x205F \<or> c = 0x3000"

fun words_of :: "ustr \<Rightarrow> ustr \<Rightarrow> ustr list" where
  "words_of cur [] = (if cur = [] then [] else [cur])"
| "words_of cur (c # cs) =
     (if is_space c then (if cur = [] then words_of [] cs else cur # words_of [] cs)
      else words_of (cur @ [c]) cs)"

definition py_split :: "ustr \<Rightarrow> ustr list" where
  "py_split s = words_of [] s"

record MemoryClassification =
  major :: string
  minor :: string
  detail :: string
  confidence :: rat

definition to_path :: "MemoryClassification \<Rightarrow> string" where
  "to_path c = major c @ ''/'' @ minor c @ ''/'' @ detail c"

text \<open>
  \<open>self.type_tree\<close>: nested dictionaries in the order of the source, the
  trigger keywords at the leaves.
\<close>

definition type_tree :: "(string \<times> (string \<times> (string \<times> ustr list) list) list) list" where
  "type_tree =
  [(''personal'',
    [(''identity'',
      [(''name'',
         [[0xC774, 0xB984], [0xC131, 0xD568], [0xD638, 0xCE6D], asc ''name'',
          asc ''called'']),
       (''age'',
         [[0xB098, 0xC774], [0xC0B4], [0xC138], [0xCD9C, 0xC0DD], asc ''age'',
          asc ''born'']),
       (''location'',
         [[0xC0B4, 0xACE0], [0xAC70, 0xC8FC], [0xC704, 0xCE58], [0xC8FC, 0xC18C],
          [0xC0AC, 0xB294], asc ''live'', asc ''location'']),
       (''gender'',
         [[0xC131, 0xBCC4], [0xB0A8, 0xC790], [0xC5EC, 0xC790], asc ''gender'']),
       (''family'',
         [[0xAC00, 0xC871], [0xBD80, 0xBAA8], [0xD615, 0xC81C], [0xC790, 0xB140],
          asc ''family''])]),
     (''preference'',
      [(''food'',
         [[0xBA39, 0xB294], [0xC74C, 0xC2DD], [0xC88B, 0xC544, 0xD558, 0xB294],
          [0xC2EB, 0xC5B4, 0xD558, 0xB294], asc ''food'', asc ''eat'', asc ''taste'']),
       (''music'',
         [[0xC74C, 0xC545], [0xB178, 0xB798], [0xB4E3, 0xB294], asc ''music'',
          asc ''song'']),
       (''activity'',
         [[0xC6B4, 0xB3D9], [0xCDE8, 0xBBF8], [0xD65C, 0xB3D9],
          [0xC990, 0xAE30, 0xB294], asc ''hobby'', asc ''activity'']),
       (''style'',
         [[0xC2A4, 0xD0C0, 0xC77C], [0xD328, 0xC158], [0xC637], asc ''style'',
          asc ''fashion'']),
       (''general'',
         [[0xC88B, 0xC544], [0xC2EB, 0xC5B4], [0xC120, 0xD638], asc ''like'',
          asc ''dislike'', asc ''prefer''])]),
     (''profession'',
      [(''job'',
         [[0xC9C1, 0xC5C5], [0xC77C], [0xC5C5, 0xBB34], asc ''job'', asc ''work'',
          asc ''occupation'']),
       (''company'',
         [[0xD68C, 0xC0AC], [0xC9C1, 0xC7A5], [0xADFC, 0xBB34], asc ''company'',
          asc ''office'']),
       (''role'',
         [[0xC5ED, 0xD560], [0xC9C1, 0xCC45], [0xB2F4, 0xB2F9], asc ''role'',
          asc ''position'', asc ''title'']),
       (''career'',
         [[0xACBD, 0xB825], [0xACBD, 0xD5D8], asc ''career'', asc ''experience'']),
       (''education'',
         [[0xD559, 0xAD50], [0xC804, 0xACF5], [0xC878, 0xC5C5], asc ''education'',
          asc ''study''])])]),
   (''knowledge'',
    [(''fact'',
      [(''general'',
         [[0xC0AC, 0xC2E4], [0xC815, 0xBCF4], [0xC54C, 0xACE0], asc ''fact'',
          asc ''information'']),
       (''specific'',
         [[0xAD6C, 0xCCB4, 0xC801], [0xC815, 0xD655, 0xD55C], asc ''specific'',
          asc ''exact'']),
       (''historical'',
         [[0xACFC, 0xAC70], [0xC5ED, 0xC0AC], [0xC608, 0xC804], asc ''history'',
          asc ''past'']),
       (''current'',
         [[0xD604, 0xC7AC], [0xC9C0, 0xAE08], [0xCD5C, 0xADFC], asc ''current'',
          asc ''now''])]),
     (''skill'',
      [(''technical'',
         [[0xAE30, 0xC220], [0xD504, 0xB85C, 0xADF8, 0xB798, 0xBC0D], [0xAC1C, 0xBC1C],
          [0xCF54, 0xB529], asc ''tech'', asc ''programming'']),
       (''language'',
         [[0xC5B8, 0xC5B4], [0xC601, 0xC5B4], [0xD55C, 0xAD6D, 0xC5B4],
          asc ''language'', asc ''speak'']),
       (''soft'',
         [[0xC18C, 0xD1B5], [0xB9AC, 0xB354, 0xC2ED], [0xD611, 0xC5C5],
          asc ''communication'', asc ''leadership'']),
       (''tool'',
         [[0xB3C4, 0xAD6C], [0xC0AC, 0xC6A9], [0xD504, 0xB85C, 0xADF8, 0xB7A8],
          asc ''tool'', asc ''software''])]),
     (''experience'',
      [(''work'',
         [[0xD504, 0xB85C, 0xC81D, 0xD2B8], [0xC5C5, 0xBB34], [0xC77C, 0xD588],
          asc ''project'', asc ''worked'']),
       (''personal'',
         [[0xACBD, 0xD5D8], [0xD588, 0xB358], [0xAE30, 0xC5B5], asc ''experience'',
          asc ''memory'']),
       (''achievement'',
         [[0xC131, 0xACFC], [0xB2EC, 0xC131], [0xC774, 0xB918], asc ''achievement'',
          asc ''accomplished'']),
       (''learning'',
         [[0xBC30, 0xC6B4], [0xD559, 0xC2B5], [0xACF5, 0xBD80], asc ''learned'',
          asc ''studied''])])]),
   (''temporal'',
    [(''conversation'',
      [(''question'',
         [asc ''?'', [0xBB50], [0xC5B4, 0xB5BB, 0xAC8C], [0xC65C], [0xC5B8, 0xC81C],
          asc ''what'', asc ''how'', asc ''why'']),
       (''statement'',
         [[0xC785, 0xB2C8, 0xB2E4], [0xD574, 0xC694], [0xD588, 0xC5B4, 0xC694],
          asc ''is'', asc ''are'', asc ''was'']),
       (''greeting'',
         [[0xC548, 0xB155], [0xBC18, 0xAC00], asc ''hello'', asc ''hi'']),
       (''response'',
         [[0xB124], [0xC544, 0xB2C8], [0xC751, 0xB2F5], asc ''yes'', asc ''no'',
          asc ''response''])]),
     (''context'',
      [(''current'',
         [[0xC9C0, 0xAE08], [0xC624, 0xB298], [0xD604, 0xC7AC], asc ''now'',
          asc ''today'', asc ''current'']),
       (''past'',
         [[0xC5B4, 0xC81C], [0xC608, 0xC804], [0xACFC, 0xAC70], asc ''yesterday'',
          asc ''before'', asc ''past'']),
       (''future'',
         [[0xB0B4, 0xC77C], [0xB098, 0xC911], [0xACC4, 0xD68D], asc ''tomorrow'',
          asc ''later'', asc ''plan'']),
       (''session'',
         [[0xBC29, 0xAE08], [0xC544, 0xAE4C], asc ''just'', asc ''recently''])])])]"

text \<open>
  The leaves in the iteration order of \<open>_build_keyword_map\<close>, each with its
  path \<open>major/minor/detail\<close>.
\<close>

definition leaves ::
  "(string \<times> (string \<times> (string \<times> ustr list) list) list) list \<Rightarrow> (string \<times> ustr list) list" where
  "leaves tree =
     concat (map (\<lambda>(major, minors).
       concat (map (\<lambda>(minor, details).
         map (\<lambda>(detail, keywords). (major @ ''/'' @ minor @ ''/'' @ detail, keywords)) details)
       minors)) tree)"

text \<open>
  \<open>keyword_map[keyword].append(path)\<close>, after creating the entry when the
  keyword is new. The dictionary keeps insertion order.
\<close>

fun km_add :: "(ustr \<times> string list) list \<Rightarrow> ustr \<Rightarrow> string \<Rightarrow> (ustr \<times> string list) list" where
  "km_add [] keyword path = [(keyword, [path])]"
| "km_add ((k, ps) # km) keyword path =
     (if k = keyword then (k, ps @ [path]) # km else (k, ps) # km_add km keyword path)"

text \<open>
  The loops of \<open>_build_keyword_map\<close>, from a given dictionary; the method
  starts them from the empty one.
\<close>

definition km_loop ::
  "(string \<times> ustr list) list \<Rightarrow> (ustr \<times> string list) list \<Rightarrow> (ustr \<times> string list) list" where
  "km_loop ls km =
     fold (\<lambda>(path, keywords) km. fold (\<lambda>keyword km'. km_add km' keyword path) keywords km) ls km"

definition build_keyword_map :: "(string \<times> ustr list) list \<Rightarrow> (ustr \<times> string list) list" where
  "build_keyword_map ls = km_loop ls []"

definition keyword_map :: "(ustr \<times> string list) list" where
  "keyword_map = build_keyword_map (leaves type_tree)"

definition enumerated_paths :: "string list" where
  "enumerated_paths = map fst (leaves type_tree)"

text \<open>
  \<open>path_scores\<close>, a dictionary in insertion order.
  \<open>score_add\<close> is \<open>if path not in path_scores: path_scores[path] = 0\<close>
  followed by \<open>path_scores[path] += weight\<close>; \<open>score_mult\<close> is
  \<open>if path in path_scores: path_scores[path] *= factor\<close>.
\<close>

fun score_add :: "(string \<times> rat) list \<Rightarrow> string \<Rightarrow> rat \<Rightarrow> (string \<times> rat) list" where
  "score_add [] path w = [(path, 0 + w)]"
| "score_add ((p, v) # sc) path w =
     (if p = path then (p, v + w) # sc else (p, v) # score_add sc path w)"

fun score_mult :: "(string \<times> rat) list \<Rightarrow> string \<Rightarrow> rat \<Rightarrow> (string \<times> rat) list" where
  "score_mult [] path f = []"
| "score_mult ((p, v) # sc) path f =
     (if p = path then (p, v * f) # sc else (p, v) # score_mult sc path f)"

definition weight :: "ustr \<Rightarrow> ustr \<Rightarrow> rat" where
  "weight keyword content_lower =
     (let w = rat_of_nat (length keyword) / 10
      in if prefix keyword content_lower then w * 2 else w)"

text \<open>
  The loop over \<open>keyword_map.items()\<close>, from a given dictionary of scores;
  \<open>classify\<close> starts it from the empty one.
\<close>

definition score_loop ::
  "ustr \<Rightarrow> (ustr \<times> string list) list \<Rightarrow> (string \<times> rat) list \<Rightarrow> (string \<times> rat) list" where
  "score_loop content_lower km path_scores =
     fold (\<lambda>(keyword, paths) scores.
             if contains keyword content_lower
             then fold (\<lambda>path sc. score_add sc path (weight keyword content_lower)) paths scores
             else scores)
          km path_scores"

definition score_keywords ::
  "(ustr \<times> string list) list \<Rightarrow> ustr \<Rightarrow> (string \<times> rat) list" where
  "score_keywords km content_lower = score_loop content_lower km []"

text \<open>
  The context dictionary by the two keys that are read; \<open>None\<close> is an
  absent key.
\<close>

record ctx_dict =
  previous_type :: "string option"
  session_types :: "string list option"

definition apply_context_boosts ::
  "(string \<times> rat) list \<Rightarrow> ctx_dict \<Rightarrow> (string \<times> rat) list" where
  "apply_context_boosts path_scores ctx =
     (let s1 = (case previous_type ctx of
                  None \<Rightarrow> path_scores
                | Some prev_path \<Rightarrow> score_mult path_scores prev_path (15 / 10))
      in case session_types ctx of
           None \<Rightarrow> s1
         | Some sts \<Rightarrow> fold (\<lambda>session_type sc. score_mult sc session_type (12 / 10)) sts s1)"

text \<open>\<open>max(items, key=score)\<close>: the first item of maximal score.\<close>

fun max_item :: "(string \<times> rat) \<Rightarrow> (string \<times> rat) list \<Rightarrow> (string \<times> rat)" where
  "max_item best [] = best"
| "max_item best (x # xs) = max_item (if snd x > snd best then x else best) xs"

definition default_classification :: "ustr \<Rightarrow> MemoryClassification" where
  "default_classification content =
     (if 0x3F \<in> set content then
        \<lparr>major = ''temporal'', minor = ''conversation'', detail = ''question'',
         confidence = 8 / 10\<rparr>
      else if length (py_split content) < 10 then
        \<lparr>major = ''temporal'', minor = ''conversation'', detail = ''statement'',
         confidence = 5 / 10\<rparr>
      else
        \<lparr>major = ''knowledge'', minor = ''fact'', detail = ''general'',
         confidence = 3 / 10\<rparr>)"

text \<open>
  \<open>classify\<close>. A context that is \<open>None\<close> or an empty dictionary applies
  no boost; \<open>path_scores_of\<close> is the dictionary \<open>path_scores\<close> when the best
  match is sought. Unpacking \<open>best_path[0].split('/')\<close> into three names
  raises \<open>ValueError\<close> for any other number of parts.
\<close>

definition path_scores_of :: "ustr \<Rightarrow> ctx_dict option \<Rightarrow> (string \<times> rat) list" where
  "path_scores_of content_lower ctx =
     (let scored = score_keywords keyword_map content_lower
      in case ctx of None \<Rightarrow> scored | Some c \<Rightarrow> apply_context_boosts scored c)"

definition classify ::
  "(ustr \<Rightarrow> ustr) \<Rightarrow> ustr \<Rightarrow> ctx_dict option \<Rightarrow> py_error + MemoryClassification" where
  "classify lower content ctx =
     (let content_lower = lower content
      in case path_scores_of content_lower ctx of
           x # xs \<Rightarrow>
             (let best_path = max_item x xs
              in case split_on CHR ''/'' (fst best_path) of
                   [ma, mi, de] \<Rightarrow>
                     Inr \<lparr>major = ma, minor = mi, detail = de,
                          confidence = min (snd best_path / 3) 1\<rparr>
                 | _ \<Rightarrow> Inl ValueError)
         | [] \<Rightarrow> Inr (default_classification content))"




text \<open>
  A lower-casing that agrees with \<open>str.lower\<close> on text of ASCII and Hangul
  characters, for evaluation.
\<close>

definition ascii_lower :: "ustr \<Rightarrow> ustr" where
  "ascii_lower s = map (\<lambda>c. if 0x41 \<le> c \<and> c \<le> 0x5A then c + 32 else c) s"

subsection \<open>The scoring rule in the words of the specification\<close>

text \<open>
  The keywords a path owns are those of its leaf. A matching keyword
  contributes a tenth of its length, twice that when the lower-cased utterance
  starts with it; the previous path counts one and a half times, a session
  path 1.2 times for each of its occurrences among the session types.
\<close>

definition leaf_keywords :: "string \<Rightarrow> ustr list" where
  "leaf_keywords p = concat (map snd (filter (\<lambda>(q, ks). q = p) (leaves type_tree)))"

definition contribution :: "ustr \<Rightarrow> ustr \<Rightarrow> rat" where
  "contribution content_lower k =
     (if contains k content_lower
      then rat_of_nat (length k) / 10 * (if prefix k content_lower then 2 else 1)
      else 0)"

definition keyword_score :: "ustr \<Rightarrow> string \<Rightarrow> rat" where
  "keyword_score content_lower p = sum_list (map (contribution content_lower) (leaf_keywords p))"

definition boost :: "ctx_dict option \<Rightarrow> string \<Rightarrow> rat" where
  "boost ctx p =
     (case ctx of
        None \<Rightarrow> 1
      | Some c \<Rightarrow>
          (if previous_type c = Some p then 15 / 10 else 1)
          * (12 / 10) ^ (case session_types c of None \<Rightarrow> 0 | Some sts \<Rightarrow> count_list sts p))"

definition boosted_score :: "ustr \<Rightarrow> ctx_dict option \<Rightarrow> string \<Rightarrow> rat" where
  "boosted_score content_lower ctx p = keyword_score content_lower p * boost ctx p"

definition lookup :: "(string \<times> rat) list \<Rightarrow> string \<Rightarrow> rat" where
  "lookup sc p = (case map_of sc p of None \<Rightarrow> 0 | Some v \<Rightarrow> v)"

text \<open>
  The score a dictionary from keywords to paths gives to a path, for a
  contribution \<open>f\<close> of each keyword.
\<close>

definition km_sum :: "(ustr \<times> string list) list \<Rightarrow> string \<Rightarrow> (ustr \<Rightarrow> rat) \<Rightarrow> rat" where
  "km_sum km p f = sum_list (map (\<lambda>(k, ps). rat_of_nat (count_list ps p) * f k) km)"

text \<open>\<open>sep.join(parts)\<close>, the inverse of \<open>split_on\<close>.\<close>

fun join :: "char \<Rightarrow> string list \<Rightarrow> string" where
  "join sep [] = []"
| "join sep [x] = x"
| "join sep (x # y # ys) = x @ [sep] @ join sep (y # ys)"

text \<open>Some trigger keyword of the tree occurs in the lower-cased utterance.\<close>

definition some_keyword_matches :: "ustr \<Rightarrow> bool" where
  "some_keyword_matches s \<longleftrightarrow> (\<exists>(p, ks) \<in> set (leaves type_tree). \<exists>k \<in> set ks. contains k s)"

text \<open>Utterances and a context for evaluation.\<close>

definition demo_content :: ustr where
  "demo_content = asc ''My name is Bob''"

definition demo_ctx :: ctx_dict where
  "demo_ctx = \<lparr>previous_type = Some ''temporal/conversation/statement'',
     session_types = Some [''temporal/conversation/statement'',
                           ''temporal/conversation/statement'']\<rparr>"

definition ten_words :: ustr where
  "ten_words = asc ''zzz zzz zzz zzz zzz zzz zzz zzz zzz zzz''"





section \<open>Content processor (enhanced\_intelligence.py)\<close>

text \<open>
  The regular expressions of the module are matched by Python's \<open>re\<close>; the
  model takes \<open>re.findall\<close> as the parameter \<open>findall\<close>, from a pattern of
  the source (named below) and a text to the list of matches. The three
  expressions that act on single characters are written out.
\<close>

datatype MemoryType =
  FACT | PREFERENCE | IDENTITY | PROFESSION | SKILL | GOAL | HOBBY | EXPERIENCE
  | CONTEXT | CONVERSATION


record entity =
  e_type :: string
  e_value :: ustr
  e_confidence :: rat

text \<open>
  \<open>ProcessedContent\<close>, without \<open>structured_content\<close>, \<open>summary\<close> and
  \<open>metadata\<close>; the field \<open>keywords\<close> is \<open>keyword_list\<close>.
\<close>

record ProcessedContent =
  extracted_entities :: "entity list"
  keyword_list :: "ustr list"
  should_store :: bool
  storage_format :: string
  importance :: rat










definition stop_words :: "ustr list" where
  "stop_words =
     [[0xB294], [0xC740], [0xC774], [0xAC00], [0xC744], [0xB97C], [0xC5D0],
      [0xC5D0, 0xC11C], [0xC73C, 0xB85C], [0xC640], [0xACFC], [0xC758],
      [0xD558, 0xB2E4], [0xC788, 0xB2E4], [0xB418, 0xB2E4], [0xC218], [0xADF8],
      [0xC800], [0xC774, 0xAC83], [0xADF8, 0xAC83]]"

text \<open>
  \<open>re.sub(r'[...]$', '', word)\<close> on a word of \<open>split()\<close>, which holds no
  line break: a final particle is removed.
\<close>

definition particles :: "int list" where
  "particles = [0xC740, 0xB294, 0xC774, 0xAC00, 0xC744, 0xB97C, 0xC5D0, 0xC11C]"

definition remove_particle :: "ustr \<Rightarrow> ustr" where
  "remove_particle word =
     (if word \<noteq> [] \<and> last word \<in> set particles then butlast word else word)"

text \<open>
  \<open>re.search(r'[\<dots>]{2,}|[A-Za-z]{3,}', w)\<close>: two Hangul syllables in a
  row, or three ASCII letters in a row.
\<close>

definition is_hangul :: "int \<Rightarrow> bool" where
  "is_hangul c \<longleftrightarrow> 0xAC00 \<le> c \<and> c \<le> 0xD7A3"

definition is_letter :: "int \<Rightarrow> bool" where
  "is_letter c \<longleftrightarrow> (0x41 \<le> c \<and> c \<le> 0x5A) \<or> (0x61 \<le> c \<and> c \<le> 0x7A)"

fun has_run :: "(int \<Rightarrow> bool) \<Rightarrow> nat \<Rightarrow> nat \<Rightarrow> ustr \<Rightarrow> bool" where
  "has_run P n seen [] = (n \<le> seen)"
| "has_run P n seen (c # cs) =
     (n \<le> seen \<or> (if P c then has_run P n (Suc seen) cs else has_run P n 0 cs))"

definition meaningful :: "ustr \<Rightarrow> bool" where
  "meaningful w \<longleftrightarrow> has_run is_hangul 2 0 w \<or> has_run is_letter 3 0 w"

text \<open>The loop that removes duplicates, keeping the first occurrence.\<close>

fun unique_keywords :: "ustr list \<Rightarrow> ustr list \<Rightarrow> ustr list" where
  "unique_keywords seen [] = []"
| "unique_keywords seen (kw # kws) =
     (if kw \<in> set seen then unique_keywords seen kws
      else kw # unique_keywords (kw # seen) kws)"

definition extract_keywords :: "ustr \<Rightarrow> ustr list" where
  "extract_keywords content =
     (let clean_words = map remove_particle (py_split content);
          kws = filter (\<lambda>w. \<not> (length w < 2 \<or> w \<in> set stop_words) \<and> meaningful w)
                       clean_words
      in take 10 (unique_keywords [] kws))"



















section \<open>Properties of the storage strategy\<close>

lemma split_on_single: "sep \<notin> set w \<Longrightarrow> split_on sep w = [w]"
  by (induction w) auto

lemma split_on_three:
  "CHR ''/'' \<notin> set a \<Longrightarrow> CHR ''/'' \<notin> set b \<Longrightarrow> CHR ''/'' \<notin> set c \<Longrightarrow>
   split_on CHR ''/'' (a @ ''/'' @ b @ ''/'' @ c) = [a, b, c]"
proof -
  have one: "\<And>w. CHR ''/'' \<notin> set w \<Longrightarrow> split_on CHR ''/'' w = [w]"
  proof -
    fix w :: string
    show "CHR ''/'' \<notin> set w \<Longrightarrow> split_on CHR ''/'' w = [w]"
      by (induction w) auto
  qed
  have step: "\<And>w r. CHR ''/'' \<notin> set w \<Longrightarrow>
      split_on CHR ''/'' (w @ ''/'' @ r) = w # split_on CHR ''/'' r"
  proof -
    fix w r :: string
    show "CHR ''/'' \<notin> set w \<Longrightarrow>
      split_on CHR ''/'' (w @ ''/'' @ r) = w # split_on CHR ''/'' r"
      by (induction w) auto
  qed
  assume a: "CHR ''/'' \<notin> set a" and b: "CHR ''/'' \<notin> set b" and c: "CHR ''/'' \<notin> set c"
  show ?thesis
    using step[OF a, of "b @ ''/'' @ c"] step[OF b, of c] one[OF c] by simp
qed


text \<open>
  C5 (as stated): a path outside the listed prefixes with importance in
  \<open>[6, 8)\<close> has compression enabled iff the size exceeds 1000. The code
  returns \<open>high_value_infrequent\<close>, whose compression flag is set, for a
  500-byte content; and \<open>knowledge/fact/general\<close>, which is not a listed
  prefix, has a branch of its own with no secondary location at all.
\<close>

theorem C5_default_mid_counterexample:
  "determine_strategy ''other/x/y'' 6 500 None = Inr high_value_infrequent
   \<and> compression_enabled high_value_infrequent
   \<and> \<not> (500::int) > 1000
   \<and> determine_strategy ''knowledge/fact/general'' 6 2000 None =
       Inr \<lparr>primary_location = DB, secondary_locations = [],
            includes_rag = False, includes_embedding = True, ttl_seconds = None,
            compression_enabled = False, index_for_search = True\<rparr>"
  by (simp add: determine_strategy_def determine_hierarchical_strategy_def
      get_default_strategy_def high_value_infrequent_def)

text \<open>
  C5 (amended): for every three-part path whose major/minor prefix has no
  branch of its own in \<open>_determine_hierarchical_strategy\<close>, every content
  size and every importance with \<open>6 \<le> importance < 8\<close>, the planner returns
  primary DB, secondary \<open>[ARCHIVE]\<close>, embedding on, RAG off, no TTL and
  compression enabled, whatever the size.
\<close>

theorem C5_default_mid:
  assumes "split_on CHR ''/'' p = [ma, mi, de]"
    and "(ma, mi) \<notin> {(''personal'', ''identity''), (''personal'', ''preference''),
          (''personal'', ''profession''), (''knowledge'', ''skill''),
          (''knowledge'', ''experience''), (''knowledge'', ''fact''),
          (''temporal'', ''conversation''), (''temporal'', ''context'')}"
    and "6 \<le> imp" and "imp < 8"
  shows "\<exists>s. determine_strategy p imp content_size access_pattern = Inr s
     \<and> primary_location s = DB \<and> secondary_locations s = [ARCHIVE]
     \<and> includes_embedding s \<and> \<not> includes_rag s \<and> ttl_seconds s = None
     \<and> compression_enabled s"
proof -
  have sl: "CHR ''/'' \<in> set p"
  proof (rule ccontr)
    assume "CHR ''/'' \<notin> set p"
    from split_on_single[OF this] assms(1) show False by simp
  qed
  show ?thesis
    using assms sl
    by (auto simp add: determine_strategy_def determine_hierarchical_strategy_def
        get_default_strategy_def high_value_infrequent_def large_content_def)
qed

theorem C5_default_mid_witness:
  "split_on CHR ''/'' ''other/x/y'' = [''other'', ''x'', ''y'']
   \<and> (6::rat) \<le> 7 \<and> (7::rat) < 8
   \<and> (\<exists>s. determine_strategy ''other/x/y'' 7 500 None = Inr s
     \<and> primary_location s = DB \<and> secondary_locations s = [ARCHIVE]
     \<and> includes_embedding s \<and> \<not> includes_rag s \<and> ttl_seconds s = None
     \<and> compression_enabled s)"
proof -
  have h: "split_on CHR ''/'' ''other/x/y'' = [''other'', ''x'', ''y'']" by simp
  show ?thesis
    using h C5_default_mid[OF h, of 7 500 None] by simp
qed

text \<open>
  C10: \<open>optimize_strategy\<close> works on a fresh strategy object with a fresh
  copy of the secondary-locations list. The result agrees with the input on
  \<open>primary_location\<close>, \<open>includes_embedding\<close>, \<open>ttl_seconds\<close> and
  \<open>index_for_search\<close>; every object and every list that existed before the
  call, the input strategy and its list among them, is unchanged.
\<close>

theorem C10_optimize_strategy_frame:
  assumes "cur < length (strategy_objs h)"
    and "o_secondary_locations (strategy_objs h ! cur) < length (list_objs h)"
    and "optimize_strategy h cur stats = (r, h')"
  shows "primary_location (strategy_at h' r) = primary_location (strategy_at h cur)
     \<and> includes_embedding (strategy_at h' r) = includes_embedding (strategy_at h cur)
     \<and> ttl_seconds (strategy_at h' r) = ttl_seconds (strategy_at h cur)
     \<and> index_for_search (strategy_at h' r) = index_for_search (strategy_at h cur)
     \<and> r = length (strategy_objs h)
     \<and> o_secondary_locations (strategy_objs h' ! r) = length (list_objs h)
     \<and> (\<forall>a < length (strategy_objs h). strategy_objs h' ! a = strategy_objs h ! a)
     \<and> (\<forall>a < length (list_objs h). list_objs h' ! a = list_objs h ! a)
     \<and> strategy_at h' cur = strategy_at h cur"
  using assms
  by (auto simp add: optimize_strategy_def Let_def alloc_list_def alloc_strategy_def
      list_append_def list_remove_def set_compression_def set_includes_rag_def
      strategy_at_def nth_append split: if_splits)

theorem C10_optimize_strategy_frame_witness:
  "(0::nat) < length (strategy_objs demo_store)
   \<and> o_secondary_locations (strategy_objs demo_store ! 0) < length (list_objs demo_store)
   \<and> fst (optimize_strategy demo_store 0 demo_stats) = 1
   \<and> strategy_at (snd (optimize_strategy demo_store 0 demo_stats)) 1 =
       \<lparr>primary_location = DB, secondary_locations = [ARCHIVE],
        includes_rag = False, includes_embedding = True, ttl_seconds = None,
        compression_enabled = True, index_for_search = True\<rparr>
   \<and> strategy_at (snd (optimize_strategy demo_store 0 demo_stats)) 0 = strategy_at demo_store 0
   \<and> list_objs (snd (optimize_strategy demo_store 0 demo_stats)) ! 0 = [RAG, CACHE]"
proof -
  have a: "(0::nat) < length (strategy_objs demo_store)"
    by (simp add: demo_store_def)
  have b: "o_secondary_locations (strategy_objs demo_store ! 0) < length (list_objs demo_store)"
    by (simp add: demo_store_def)
  have c: "optimize_strategy demo_store 0 demo_stats =
      (fst (optimize_strategy demo_store 0 demo_stats), snd (optimize_strategy demo_store 0 demo_stats))"
    by simp
  have d: "strategy_at (snd (optimize_strategy demo_store 0 demo_stats)) 1 =
       \<lparr>primary_location = DB, secondary_locations = [ARCHIVE],
        includes_rag = False, includes_embedding = True, ttl_seconds = None,
        compression_enabled = True, index_for_search = True\<rparr>"
    by (simp add: optimize_strategy_def Let_def alloc_list_def alloc_strategy_def
      list_append_def list_remove_def set_compression_def set_includes_rag_def
      strategy_at_def demo_store_def demo_stats_def get_or_def)
  have e: "list_objs demo_store ! 0 = [RAG, CACHE]"
    by (simp add: demo_store_def)
  have n: "length (strategy_objs demo_store) = 1" "length (list_objs demo_store) = 1"
    by (simp_all add: demo_store_def)
  note th = C10_optimize_strategy_frame[OF a b c]
  from th n have f: "fst (optimize_strategy demo_store 0 demo_stats) = 1"
    by simp
  from th n have g: "list_objs (snd (optimize_strategy demo_store 0 demo_stats)) ! 0
      = list_objs demo_store ! 0"
    by simp
  from th have k: "strategy_at (snd (optimize_strategy demo_store 0 demo_stats)) 0
      = strategy_at demo_store 0"
    by simp
  show ?thesis
    using a b d e f g k by simp
qed

section \<open>Properties of the index optimizer\<close>

lemma power_user_ratio_gt:
  "power_user_ratio stats > 2 / 10 \<longleftrightarrow>
   total_users stats > 0 \<and> 5 * power_users stats > total_users stats"
proof (cases "total_users stats > 0")
  case True
  then have pos: "(0::rat) < rat_of_int (total_users stats)" by simp
  have "rat_of_int (power_users stats) / rat_of_int (total_users stats) > 2 / 10
        \<longleftrightarrow> rat_of_int (5 * power_users stats) > rat_of_int (total_users stats)"
    using pos by (simp add: field_simps)
  also have "\<dots> \<longleftrightarrow> 5 * power_users stats > total_users stats"
    by (simp only: of_int_less_iff)
  finally show ?thesis using True by (simp add: power_user_ratio_def)
next
  case False
  then show ?thesis by (simp add: power_user_ratio_def)
qed

text \<open>
  C7 (as stated): in the band \<open>10000 \<le> N < 100000\<close> the accurate variant is
  chosen exactly when the share of power users (at least 1000 memories each)
  exceeds 0.2. The code adds the \<open>heavy\<close> bucket to the \<open>power\<close> bucket:
  with ten users of 999 memories and ten of one memory there is no power user
  at all, and the accurate variant is chosen.
\<close>

theorem C7_index_strategy_counterexample:
  "determine_index_strategy heavy_stats = IvfflatOptimized 50 20 True
   \<and> dict_get (get_or (user_distribution heavy_stats) []) ''power'' 0 = 0
   \<and> user_type 999 = ''heavy''
   \<and> 10 * 999 + 10 * 1 = row_count heavy_stats"
  by (simp add: determine_index_strategy_def heavy_stats_def power_user_ratio_def
      power_users_def total_users_def dict_get_def get_or_def user_type_def)

text \<open>
  C7 (amended): with \<open>N\<close> the row count, \<open>U\<close> the unique users and the
  ratio taken of the users in the \<open>power\<close> and \<open>heavy\<close> buckets together
  (at least 100 memories each) among all bucketed users, the strategy is: none
  for \<open>N < 1000\<close>; IVFFlat with \<open>max(N div 100, 10)\<close> lists and 5 probes for
  \<open>N < 10000\<close>; for \<open>N < 100000\<close> the accurate variant
  (\<open>max(N div 500, 50)\<close> lists, 20 probes, and the composite
  \<open>(user_id, importance DESC)\<close> index) exactly when the ratio exceeds 0.2,
  else the fast variant (\<open>max(N div 1000, 30)\<close> lists, 10 probes);
  partitioned IVFFlat (100 lists per partition, built with 1000 lists, 15
  probes) for \<open>N \<ge> 100000\<close> and \<open>U < 1000\<close>; HNSW with \<open>ef_search = 100\<close>
  and \<open>(16, 200)\<close> below 500000 rows, \<open>(32, 400)\<close> from there on, for
  \<open>N \<ge> 100000\<close> and \<open>U \<ge> 1000\<close>.
\<close>

theorem C7_index_strategy:
  "(row_count stats < 1000 \<longrightarrow> determine_index_strategy stats = NoIndex)
 \<and> (1000 \<le> row_count stats \<and> row_count stats < 10000 \<longrightarrow>
      determine_index_strategy stats = IvfflatBasic (max (row_count stats div 100) 10) 5)
 \<and> (10000 \<le> row_count stats \<and> row_count stats < 100000
      \<and> power_user_ratio stats > 2 / 10 \<longrightarrow>
      determine_index_strategy stats =
        IvfflatOptimized (max (row_count stats div 500) 50) 20 True
      \<and> CreateIndexUserImportance t
          \<in> set (apply_index_strategy t (determine_index_strategy stats) stats))
 \<and> (10000 \<le> row_count stats \<and> row_count stats < 100000
      \<and> \<not> power_user_ratio stats > 2 / 10 \<longrightarrow>
      determine_index_strategy stats =
        IvfflatOptimized (max (row_count stats div 1000) 30) 10 False
      \<and> CreateIndexUserImportance t
          \<notin> set (apply_index_strategy t (determine_index_strategy stats) stats))
 \<and> (100000 \<le> row_count stats \<and> unique_users stats < 1000 \<longrightarrow>
      determine_index_strategy stats = PartitionedIvfflat 100 15
      \<and> CreateIndexIvfflatOptimized t 1000
          \<in> set (apply_index_strategy t (determine_index_strategy stats) stats))
 \<and> (100000 \<le> row_count stats \<and> row_count stats < 500000
      \<and> 1000 \<le> unique_users stats \<longrightarrow>
      determine_index_strategy stats = Hnsw 16 200 100)
 \<and> (500000 \<le> row_count stats \<and> 1000 \<le> unique_users stats \<longrightarrow>
      determine_index_strategy stats = Hnsw 32 400 100)
 \<and> power_user_ratio stats =
      (if total_users stats > 0
       then rat_of_int (dict_get (get_or (user_distribution stats) []) ''power'' 0
                        + dict_get (get_or (user_distribution stats) []) ''heavy'' 0)
            / rat_of_int (total_users stats)
       else 0)"
  by (simp add: determine_index_strategy_def apply_index_strategy_def
      power_user_ratio_def power_users_def Let_def)

theorem C7_index_strategy_witness:
  "determine_index_strategy (stats_of 500 3 []) = NoIndex
 \<and> determine_index_strategy (stats_of 5000 30 []) = IvfflatBasic 50 5
 \<and> power_user_ratio heavy_stats > 2 / 10
 \<and> determine_index_strategy heavy_stats = IvfflatOptimized 50 20 True
 \<and> CreateIndexUserImportance ''user_memories''
      \<in> set (apply_index_strategy ''user_memories''
                (determine_index_strategy heavy_stats) heavy_stats)
 \<and> \<not> power_user_ratio (stats_of 50000 100 [(''light'', 100)]) > 2 / 10
 \<and> determine_index_strategy (stats_of 50000 100 [(''light'', 100)])
      = IvfflatOptimized 50 10 False
 \<and> determine_index_strategy (stats_of 150000 10 []) = PartitionedIvfflat 100 15
 \<and> CreateIndexIvfflatOptimized ''user_memories'' 1000
      \<in> set (apply_index_strategy ''user_memories''
                (determine_index_strategy (stats_of 150000 10 [])) (stats_of 150000 10 []))
 \<and> determine_index_strategy (stats_of 150000 3000 []) = Hnsw 16 200 100
 \<and> determine_index_strategy (stats_of 600000 3000 []) = Hnsw 32 400 100"
proof -
  let ?t = "''user_memories''"
  let ?s4 = "stats_of 50000 100 [(''light'', 100)]"
  have r3: "power_user_ratio heavy_stats > 2 / 10"
    by (simp add: power_user_ratio_def power_users_def total_users_def dict_get_def
        get_or_def heavy_stats_def)
  have r4: "\<not> power_user_ratio ?s4 > 2 / 10"
    by (simp add: power_user_ratio_def power_users_def total_users_def dict_get_def
        get_or_def stats_of_def)
  have b1: "row_count (stats_of 500 3 []) < 1000"
    by (simp add: stats_of_def)
  have b2: "1000 \<le> row_count (stats_of 5000 30 []) \<and> row_count (stats_of 5000 30 []) < 10000"
    by (simp add: stats_of_def)
  have b3: "10000 \<le> row_count heavy_stats \<and> row_count heavy_stats < 100000
      \<and> power_user_ratio heavy_stats > 2 / 10"
    using r3 by (simp add: heavy_stats_def)
  have b4: "10000 \<le> row_count ?s4 \<and> row_count ?s4 < 100000 \<and> \<not> power_user_ratio ?s4 > 2 / 10"
    using r4 by (simp add: stats_of_def)
  have b5: "100000 \<le> row_count (stats_of 150000 10 [])
      \<and> unique_users (stats_of 150000 10 []) < 1000"
    by (simp add: stats_of_def)
  have b6: "100000 \<le> row_count (stats_of 150000 3000 [])
      \<and> row_count (stats_of 150000 3000 []) < 500000
      \<and> 1000 \<le> unique_users (stats_of 150000 3000 [])"
    by (simp add: stats_of_def)
  have b7: "500000 \<le> row_count (stats_of 600000 3000 [])
      \<and> 1000 \<le> unique_users (stats_of 600000 3000 [])"
    by (simp add: stats_of_def)
  have c1: "determine_index_strategy (stats_of 500 3 []) = NoIndex"
    using C7_index_strategy[of "stats_of 500 3 []" ?t] b1 by blast
  have c2: "determine_index_strategy (stats_of 5000 30 [])
      = IvfflatBasic (max (row_count (stats_of 5000 30 []) div 100) 10) 5"
    using C7_index_strategy[of "stats_of 5000 30 []" ?t] b2 by blast
  have c3: "determine_index_strategy heavy_stats
      = IvfflatOptimized (max (row_count heavy_stats div 500) 50) 20 True
     \<and> CreateIndexUserImportance ?t
      \<in> set (apply_index_strategy ?t (determine_index_strategy heavy_stats) heavy_stats)"
    using C7_index_strategy[of heavy_stats ?t] b3 by blast
  have c4: "determine_index_strategy ?s4
      = IvfflatOptimized (max (row_count ?s4 div 1000) 30) 10 False"
    using C7_index_strategy[of ?s4 ?t] b4 by blast
  have c5: "determine_index_strategy (stats_of 150000 10 []) = PartitionedIvfflat 100 15
     \<and> CreateIndexIvfflatOptimized ?t 1000
      \<in> set (apply_index_strategy ?t
                (determine_index_strategy (stats_of 150000 10 [])) (stats_of 150000 10 []))"
    using C7_index_strategy[of "stats_of 150000 10 []" ?t] b5 by blast
  have c6: "determine_index_strategy (stats_of 150000 3000 []) = Hnsw 16 200 100"
    using C7_index_strategy[of "stats_of 150000 3000 []" ?t] b6 by blast
  have c7: "determine_index_strategy (stats_of 600000 3000 []) = Hnsw 32 400 100"
    using C7_index_strategy[of "stats_of 600000 3000 []" ?t] b7 by blast
  have e2: "max (row_count (stats_of 5000 30 []) div 100) 10 = 50"
    by (simp add: stats_of_def)
  have e3: "max (row_count heavy_stats div 500) 50 = 50"
    by (simp add: heavy_stats_def)
  have e4: "max (row_count ?s4 div 1000) 30 = 50"
    by (simp add: stats_of_def)
  show ?thesis
    using r3 r4 c1 c2 c3 c4 c5 c6 c7 e2 e3 e4
    by (simp add: apply_index_strategy_def)
qed

section \<open>Properties of the classifier\<close>

subsection \<open>The dictionary of scores\<close>

lemma map_of_score_add:
  "map_of (score_add sc p w) q = (if q = p then Some (lookup sc p + w) else map_of sc q)"
  by (induction sc p w rule: score_add.induct) (auto simp: lookup_def)

lemma lookup_score_add:
  "lookup (score_add sc p w) q = (if q = p then lookup sc p + w else lookup sc q)"
  by (simp add: lookup_def map_of_score_add)

lemma keys_score_add:
  "fst ` set (score_add sc p w) = insert p (fst ` set sc)"
  by (induction sc p w rule: score_add.induct) auto

lemma distinct_score_add:
  "distinct (map fst sc) \<Longrightarrow> distinct (map fst (score_add sc p w))"
  by (induction sc p w rule: score_add.induct) (auto simp: keys_score_add)

lemma nonneg_score_add:
  "\<forall>x \<in> set sc. 0 \<le> snd x \<Longrightarrow> 0 \<le> w \<Longrightarrow> \<forall>x \<in> set (score_add sc p w). 0 \<le> snd x"
  by (induction sc p w rule: score_add.induct) auto

lemma map_fst_score_mult: "map fst (score_mult sc p f) = map fst sc"
  by (induction sc p f rule: score_mult.induct) auto

lemma lookup_score_mult:
  "lookup (score_mult sc p f) q = (if q = p then lookup sc p * f else lookup sc q)"
  by (induction sc p f rule: score_mult.induct) (auto simp: lookup_def)

lemma nonneg_score_mult:
  "\<forall>x \<in> set sc. 0 \<le> snd x \<Longrightarrow> 0 \<le> f \<Longrightarrow> \<forall>x \<in> set (score_mult sc p f). 0 \<le> snd x"
  by (induction sc p f rule: score_mult.induct) auto

text \<open>The inner loop over the paths of one keyword.\<close>

lemma lookup_fold_add:
  "lookup (fold (\<lambda>path sc. score_add sc path w) paths sc) p
     = lookup sc p + rat_of_nat (count_list paths p) * w"
  by (induction paths arbitrary: sc) (auto simp: lookup_score_add algebra_simps)

lemma keys_fold_add:
  "fst ` set (fold (\<lambda>path sc. score_add sc path w) paths sc) = set paths \<union> fst ` set sc"
  by (induction paths arbitrary: sc) (auto simp: keys_score_add)

lemma distinct_fold_add:
  "distinct (map fst sc) \<Longrightarrow> distinct (map fst (fold (\<lambda>path sc. score_add sc path w) paths sc))"
  by (induction paths arbitrary: sc) (auto simp: distinct_score_add)

lemma nonneg_fold_add:
  "\<forall>x \<in> set sc. 0 \<le> snd x \<Longrightarrow> 0 \<le> w \<Longrightarrow>
   \<forall>x \<in> set (fold (\<lambda>path sc. score_add sc path w) paths sc). 0 \<le> snd x"
proof (induction paths arbitrary: sc)
  case Nil
  then show ?case by simp
next
  case (Cons a paths)
  from nonneg_score_add[OF Cons.prems] have "\<forall>x\<in>set (score_add sc a w). 0 \<le> snd x" .
  from Cons.IH[OF this Cons.prems(2)] show ?case by simp
qed

lemma weight_nonneg: "0 \<le> weight k s"
  by (simp add: weight_def Let_def)

lemma weight_contribution:
  "(if contains k s then weight k s else 0) = contribution s k"
  by (simp add: weight_def contribution_def Let_def)

lemma score_loop_Nil: "score_loop s [] sc = sc" by (simp add: score_loop_def)
lemma score_loop_Cons: "score_loop s ((k, ps) # km) sc =
   score_loop s km (if contains k s then fold (\<lambda>path sc. score_add sc path (weight k s)) ps sc else sc)"
  by (simp add: score_loop_def)

lemma lookup_score_loop:
  "lookup (score_loop s km sc) p =
     lookup sc p + sum_list (map (\<lambda>(k, ps). rat_of_nat (count_list ps p) * contribution s k) km)"
proof (induction km arbitrary: sc)
  case Nil
  then show ?case by (simp add: score_loop_Nil)
next
  case (Cons a km)
  obtain k ps where a: "a = (k, ps)" by (cases a)
  show ?case
    unfolding a score_loop_Cons Cons.IH
    by (simp add: lookup_fold_add weight_contribution[symmetric])
qed

lemma keys_score_loop:
  "fst ` set (score_loop s km sc) \<subseteq> fst ` set sc \<union> \<Union> (set ` snd ` set km)"
proof (induction km arbitrary: sc)
  case Nil
  then show ?case by (simp add: score_loop_Nil)
next
  case (Cons a km)
  obtain k ps where a: "a = (k, ps)" by (cases a)
  show ?case
    unfolding a score_loop_Cons
    using Cons.IH[of "if contains k s then fold (\<lambda>path sc. score_add sc path (weight k s)) ps sc else sc"]
    by (auto simp: keys_fold_add split: if_splits)
qed

lemma distinct_score_loop:
  "distinct (map fst sc) \<Longrightarrow> distinct (map fst (score_loop s km sc))"
proof (induction km arbitrary: sc)
  case Nil
  then show ?case by (simp add: score_loop_Nil)
next
  case (Cons a km)
  obtain k ps where a: "a = (k, ps)" by (cases a)
  show ?case
    unfolding a score_loop_Cons
    by (rule Cons.IH) (simp add: distinct_fold_add Cons.prems)
qed

lemma nonneg_score_loop:
  "\<forall>x \<in> set sc. 0 \<le> snd x \<Longrightarrow> \<forall>x \<in> set (score_loop s km sc). 0 \<le> snd x"
proof (induction km arbitrary: sc)
  case Nil
  then show ?case by (simp add: score_loop_Nil)
next
  case (Cons a km)
  obtain k ps where a: "a = (k, ps)" by (cases a)
  show ?case
    unfolding a score_loop_Cons
    by (rule Cons.IH) (use Cons.prems nonneg_fold_add[OF Cons.prems weight_nonneg] in auto)
qed

lemma keys_score_loop_mono: "fst ` set sc \<subseteq> fst ` set (score_loop s km sc)"
proof (induction km arbitrary: sc)
  case Nil
  then show ?case by (simp add: score_loop_Nil)
next
  case (Cons a km)
  obtain k ps where a: "a = (k, ps)" by (cases a)
  show ?case
    unfolding a score_loop_Cons
    using Cons.IH[of "if contains k s then fold (\<lambda>path sc. score_add sc path (weight k s)) ps sc else sc"]
    by (auto simp: keys_fold_add split: if_splits)
qed

lemma matched_in_score_loop:
  "(k, ps) \<in> set km \<Longrightarrow> contains k s \<Longrightarrow> p \<in> set ps \<Longrightarrow> p \<in> fst ` set (score_loop s km sc)"
proof (induction km arbitrary: sc)
  case Nil
  then show ?case by simp
next
  case (Cons a km)
  obtain k' ps' where a: "a = (k', ps')" by (cases a)
  show ?case
  proof (cases "(k, ps) = a")
    case True
    then have eq: "k' = k" "ps' = ps" using a by auto
    let ?sc = "fold (\<lambda>path sc. score_add sc path (weight k s)) ps sc"
    have "p \<in> fst ` set ?sc"
      using Cons.prems by (simp add: keys_fold_add)
    moreover have "fst ` set ?sc \<subseteq> fst ` set (score_loop s km ?sc)"
      by (rule keys_score_loop_mono)
    ultimately have "p \<in> fst ` set (score_loop s km ?sc)" by blast
    then show ?thesis
      unfolding a score_loop_Cons eq using Cons.prems(2) by simp
  next
    case False
    then have "(k, ps) \<in> set km" using Cons.prems by auto
    from Cons.IH[OF this Cons.prems(2,3)] show ?thesis
      unfolding a score_loop_Cons by simp
  qed
qed

subsection \<open>The keyword map\<close>

lemma km_sum_add:
  "km_sum (km_add km k q) p f = km_sum km p f + (if q = p then f k else 0)"
  by (induction km k q rule: km_add.induct) (auto simp: km_sum_def algebra_simps)

lemma km_paths_add:
  "\<Union> (set ` snd ` set (km_add km k q)) = insert q (\<Union> (set ` snd ` set km))"
  by (induction km k q rule: km_add.induct) auto

lemma km_sum_fold_add:
  "km_sum (fold (\<lambda>keyword km'. km_add km' keyword q) ks km) p f
     = km_sum km p f + (if q = p then sum_list (map f ks) else 0)"
  by (induction ks arbitrary: km) (auto simp: km_sum_add)

lemma km_paths_fold_add:
  "\<Union> (set ` snd ` set (fold (\<lambda>keyword km'. km_add km' keyword q) ks km))
     \<subseteq> insert q (\<Union> (set ` snd ` set km))"
proof (induction ks arbitrary: km)
  case Nil
  then show ?case by auto
next
  case (Cons a ks)
  have "\<Union> (set ` snd ` set (fold (\<lambda>keyword km'. km_add km' keyword q) ks (km_add km a q)))
      \<subseteq> insert q (\<Union> (set ` snd ` set (km_add km a q)))"
    by (rule Cons.IH)
  then show ?case using km_paths_add[of km a q] by auto
qed

lemma km_sum_loop:
  "km_sum (km_loop ls km) p f
    = km_sum km p f + sum_list (map f (concat (map snd (filter (\<lambda>(q, ks). q = p) ls))))"
proof (induction ls arbitrary: km)
  case Nil
  then show ?case by (simp add: km_loop_def)
next
  case (Cons a ls)
  obtain q ks where a: "a = (q, ks)" by (cases a)
  have step: "km_loop (a # ls) km = km_loop ls (fold (\<lambda>keyword km'. km_add km' keyword q) ks km)"
    by (simp add: km_loop_def a)
  show ?case
    unfolding step Cons.IH by (simp add: km_sum_fold_add a)
qed

lemma km_paths_loop:
  "\<Union> (set ` snd ` set (km_loop ls km)) \<subseteq> fst ` set ls \<union> \<Union> (set ` snd ` set km)"
proof (induction ls arbitrary: km)
  case Nil
  then show ?case by (simp add: km_loop_def)
next
  case (Cons a ls)
  obtain q ks where a: "a = (q, ks)" by (cases a)
  have step: "km_loop (a # ls) km = km_loop ls (fold (\<lambda>keyword km'. km_add km' keyword q) ks km)"
    by (simp add: km_loop_def a)
  show ?case
    unfolding step
    using Cons.IH[of "fold (\<lambda>keyword km'. km_add km' keyword q) ks km"]
      km_paths_fold_add[of q ks km]
    by (auto simp: a)
qed

lemma build_keyword_map_loop: "build_keyword_map ls = km_loop ls []"
  by (simp add: build_keyword_map_def)

lemma keyword_map_sum: "km_sum keyword_map p f = sum_list (map f (leaf_keywords p))"
proof -
  have "km_sum (km_loop (leaves type_tree) []) p f
      = km_sum [] p f
        + sum_list (map f (concat (map snd (filter (\<lambda>(q, ks). q = p) (leaves type_tree)))))"
    by (rule km_sum_loop)
  also have "km_sum [] p f = 0" by (simp add: km_sum_def)
  finally show ?thesis
    by (simp add: keyword_map_def build_keyword_map_loop leaf_keywords_def)
qed

lemma keyword_map_paths: "\<Union> (set ` snd ` set keyword_map) \<subseteq> set enumerated_paths"
  using km_paths_loop[of "leaves type_tree" "[]"]
  by (simp add: keyword_map_def build_keyword_map_loop enumerated_paths_def)

lemma lookup_score_keywords:
  "lookup (score_keywords keyword_map s) p = keyword_score s p"
  using lookup_score_loop[of s keyword_map "[]" p] keyword_map_sum[of p "contribution s"]
  by (simp add: score_keywords_def keyword_score_def km_sum_def lookup_def)

subsection \<open>Context boosts and the best match\<close>

lemma lookup_fold_mult:
  "lookup (fold (\<lambda>st sc. score_mult sc st f) sts sc) p = lookup sc p * f ^ count_list sts p"
  by (induction sts arbitrary: sc) (auto simp: lookup_score_mult)

lemma map_fst_fold_mult:
  "map fst (fold (\<lambda>st sc. score_mult sc st f) sts sc) = map fst sc"
  by (induction sts arbitrary: sc) (auto simp: map_fst_score_mult)

lemma nonneg_fold_mult:
  "\<forall>x \<in> set sc. 0 \<le> snd x \<Longrightarrow> 0 \<le> f \<Longrightarrow>
   \<forall>x \<in> set (fold (\<lambda>st sc. score_mult sc st f) sts sc). 0 \<le> snd x"
proof (induction sts arbitrary: sc)
  case Nil
  then show ?case by simp
next
  case (Cons a sts)
  from nonneg_score_mult[OF Cons.prems] have "\<forall>x\<in>set (score_mult sc a f). 0 \<le> snd x" .
  from Cons.IH[OF this Cons.prems(2)] show ?case by simp
qed

lemma lookup_boosts:
  "lookup (apply_context_boosts sc c) p = lookup sc p * boost (Some c) p"
  by (simp add: apply_context_boosts_def boost_def Let_def lookup_fold_mult lookup_score_mult
      split: option.splits)

lemma map_fst_boosts: "map fst (apply_context_boosts sc c) = map fst sc"
  by (simp add: apply_context_boosts_def Let_def map_fst_fold_mult map_fst_score_mult
      split: option.splits)

lemma nonneg_boosts:
  assumes "\<forall>x \<in> set sc. 0 \<le> snd x"
  shows "\<forall>x \<in> set (apply_context_boosts sc c). 0 \<le> snd x"
proof -
  define s1 where "s1 = (case previous_type c of None \<Rightarrow> sc
                         | Some prev_path \<Rightarrow> score_mult sc prev_path (15 / 10))"
  have s1: "\<forall>x \<in> set s1. 0 \<le> snd x"
  proof (cases "previous_type c")
    case None
    then show ?thesis using assms by (simp add: s1_def)
  next
    case (Some q)
    have "\<forall>x \<in> set (score_mult sc q (15 / 10)). 0 \<le> snd x"
      by (rule nonneg_score_mult[OF assms]) simp
    then show ?thesis using Some by (simp add: s1_def)
  qed
  show ?thesis
  proof (cases "session_types c")
    case None
    then show ?thesis using s1 by (simp add: apply_context_boosts_def Let_def s1_def)
  next
    case (Some sts)
    have "\<forall>x \<in> set (fold (\<lambda>st sc. score_mult sc st (12 / 10)) sts s1). 0 \<le> snd x"
      by (rule nonneg_fold_mult[OF s1]) simp
    then show ?thesis using Some by (simp add: apply_context_boosts_def Let_def s1_def)
  qed
qed

lemma max_item_in: "max_item b xs \<in> set (b # xs)"
  by (induction b xs rule: max_item.induct) auto

lemma max_item_ge_best: "snd b \<le> snd (max_item b xs)"
  by (induction b xs rule: max_item.induct) (auto split: if_splits)

lemma max_item_ge: "y \<in> set (b # xs) \<Longrightarrow> snd y \<le> snd (max_item b xs)"
proof (induction b xs rule: max_item.induct)
  case (1 best)
  then show ?case by simp
next
  case (2 best x xs)
  let ?b = "if snd x > snd best then x else best"
  have bb: "snd best \<le> snd (max_item ?b xs)" "snd x \<le> snd (max_item ?b xs)"
    using max_item_ge_best[of ?b xs] by (auto split: if_splits)
  from 2 bb show ?case by auto
qed

lemma lookup_distinct: "distinct (map fst sc) \<Longrightarrow> (p, v) \<in> set sc \<Longrightarrow> lookup sc p = v"
  by (simp add: lookup_def)

lemma lookup_absent: "p \<notin> fst ` set sc \<Longrightarrow> lookup sc p = 0"
proof -
  assume "p \<notin> fst ` set sc"
  then have "map_of sc p = None" by (simp add: map_of_eq_None_iff)
  then show ?thesis by (simp add: lookup_def)
qed

lemma split_on_nonempty: "split_on sep s \<noteq> []"
  by (induction s) (auto split: list.splits)

lemma join_split_on: "join sep (split_on sep s) = s"
proof (induction s)
  case Nil
  then show ?case by simp
next
  case (Cons c s)
  obtain w ws where w: "split_on sep s = w # ws"
    using split_on_nonempty[of sep s] by (cases "split_on sep s") auto
  show ?case
  proof (cases "c = sep")
    case True
    then show ?thesis using Cons w by simp
  next
    case False
    then show ?thesis using Cons w by (cases ws) auto
  qed
qed

lemma split_on_three_join:
  "split_on CHR ''/'' p = [a, b, c] \<Longrightarrow> p = a @ ''/'' @ b @ ''/'' @ c"
  using join_split_on[of "CHR ''/''" p] by simp

lemma enumerated_paths_eval: "enumerated_paths =
 [''personal/identity/name'', ''personal/identity/age'',
  ''personal/identity/location'', ''personal/identity/gender'',
  ''personal/identity/family'', ''personal/preference/food'',
  ''personal/preference/music'', ''personal/preference/activity'',
  ''personal/preference/style'', ''personal/preference/general'',
  ''personal/profession/job'', ''personal/profession/company'',
  ''personal/profession/role'', ''personal/profession/career'',
  ''personal/profession/education'', ''knowledge/fact/general'',
  ''knowledge/fact/specific'', ''knowledge/fact/historical'',
  ''knowledge/fact/current'', ''knowledge/skill/technical'',
  ''knowledge/skill/language'', ''knowledge/skill/soft'',
  ''knowledge/skill/tool'', ''knowledge/experience/work'',
  ''knowledge/experience/personal'', ''knowledge/experience/achievement'',
  ''knowledge/experience/learning'', ''temporal/conversation/question'',
  ''temporal/conversation/statement'', ''temporal/conversation/greeting'',
  ''temporal/conversation/response'', ''temporal/context/current'',
  ''temporal/context/past'', ''temporal/context/future'',
  ''temporal/context/session'']"
  by (simp add: enumerated_paths_def leaves_def type_tree_def)

lemma enumerated_split:
  "p \<in> set enumerated_paths \<Longrightarrow> \<exists>a b c. split_on CHR ''/'' p = [a, b, c]"
  unfolding enumerated_paths_eval by auto

lemma lookup_path_scores: "lookup (path_scores_of s ctx) p = boosted_score s ctx p"
  by (cases ctx)
     (simp_all add: path_scores_of_def boosted_score_def lookup_score_keywords lookup_boosts
       boost_def)

lemma keys_score_keywords: "fst ` set (score_keywords keyword_map s) \<subseteq> set enumerated_paths"
  using keys_score_loop[of s keyword_map "[]"] keyword_map_paths
  by (auto simp: score_keywords_def)

lemma keys_path_scores: "fst ` set (path_scores_of s ctx) \<subseteq> set enumerated_paths"
proof (cases ctx)
  case None
  then show ?thesis using keys_score_keywords by (simp add: path_scores_of_def)
next
  case (Some c)
  have "fst ` set (apply_context_boosts (score_keywords keyword_map s) c)
      = fst ` set (score_keywords keyword_map s)"
    using map_fst_boosts[of "score_keywords keyword_map s" c]
    by (metis list.set_map)
  then show ?thesis using Some keys_score_keywords by (simp add: path_scores_of_def)
qed

lemma distinct_path_scores: "distinct (map fst (path_scores_of s ctx))"
proof -
  have d: "distinct (map fst (score_keywords keyword_map s))"
    unfolding score_keywords_def by (rule distinct_score_loop) simp
  show ?thesis
    using d by (cases ctx) (simp_all add: path_scores_of_def map_fst_boosts)
qed

lemma nonneg_path_scores: "\<forall>x \<in> set (path_scores_of s ctx). 0 \<le> snd x"
proof -
  have d: "\<forall>x \<in> set (score_keywords keyword_map s). 0 \<le> snd x"
    unfolding score_keywords_def by (rule nonneg_score_loop) simp
  show ?thesis
    using d nonneg_boosts[OF d] by (cases ctx) (simp_all add: path_scores_of_def)
qed

lemma boosted_le_best:
  assumes ps: "path_scores_of s ctx = x # xs"
  shows "boosted_score s ctx q \<le> snd (max_item x xs)"
    and "snd (max_item x xs) = boosted_score s ctx (fst (max_item x xs))"
    and "fst (max_item x xs) \<in> set enumerated_paths"
    and "0 \<le> snd (max_item x xs)"
proof -
  let ?b = "max_item x xs"
  have bin: "?b \<in> set (path_scores_of s ctx)"
    using max_item_in[of x xs] ps by simp
  have "(fst ?b, snd ?b) \<in> set (path_scores_of s ctx)" using bin by simp
  from lookup_distinct[OF distinct_path_scores this]
  show eq: "snd ?b = boosted_score s ctx (fst ?b)"
    by (simp add: lookup_path_scores)
  show "fst ?b \<in> set enumerated_paths"
    using bin keys_path_scores[of s ctx] by auto
  show nn: "0 \<le> snd ?b" using bin nonneg_path_scores by blast
  show "boosted_score s ctx q \<le> snd ?b"
  proof (cases "q \<in> fst ` set (path_scores_of s ctx)")
    case True
    then obtain v where v: "(q, v) \<in> set (path_scores_of s ctx)" by auto
    from lookup_distinct[OF distinct_path_scores v]
    have "boosted_score s ctx q = v" by (simp add: lookup_path_scores)
    moreover have "snd (q, v) \<le> snd ?b"
      by (rule max_item_ge) (use v ps in simp)
    ultimately show ?thesis by simp
  next
    case False
    from lookup_absent[OF this] have "boosted_score s ctx q = 0"
      by (simp add: lookup_path_scores)
    then show ?thesis using nn by simp
  qed
qed

subsection \<open>Matching keywords\<close>

lemma score_loop_no_match:
  "\<forall>(k, ps) \<in> set km. \<not> contains k s \<Longrightarrow> score_loop s km sc = sc"
proof (induction km arbitrary: sc)
  case Nil
  then show ?case by (simp add: score_loop_Nil)
next
  case (Cons a km)
  obtain k ps where a: "a = (k, ps)" by (cases a)
  from Cons.prems have "\<not> contains k s" "\<forall>(k, ps) \<in> set km. \<not> contains k s"
    by (auto simp: a)
  then show ?case
    unfolding a score_loop_Cons using Cons.IH by simp
qed

lemma km_keys_add: "fst ` set (km_add km k q) = insert k (fst ` set km)"
  by (induction km k q rule: km_add.induct) auto

lemma km_nonempty_add:
  "\<forall>(k, ps) \<in> set km. ps \<noteq> [] \<Longrightarrow> \<forall>(k, ps) \<in> set (km_add km k' q). ps \<noteq> []"
  by (induction km k' q rule: km_add.induct) auto

lemma km_keys_fold_add:
  "fst ` set (fold (\<lambda>keyword km'. km_add km' keyword q) ks km) = set ks \<union> fst ` set km"
  by (induction ks arbitrary: km) (auto simp: km_keys_add)

lemma km_nonempty_fold_add:
  "\<forall>(k, ps) \<in> set km. ps \<noteq> [] \<Longrightarrow>
   \<forall>(k, ps) \<in> set (fold (\<lambda>keyword km'. km_add km' keyword q) ks km). ps \<noteq> []"
proof (induction ks arbitrary: km)
  case Nil
  then show ?case by simp
next
  case (Cons a ks)
  from km_nonempty_add[OF Cons.prems] have "\<forall>(k, ps)\<in>set (km_add km a q). ps \<noteq> []" .
  from Cons.IH[OF this] show ?case by simp
qed

lemma km_loop_Cons:
  "km_loop ((q, ks) # ls) km = km_loop ls (fold (\<lambda>keyword km'. km_add km' keyword q) ks km)"
  by (simp add: km_loop_def)

lemma km_keys_loop:
  "fst ` set (km_loop ls km) = fst ` set km \<union> \<Union> (set ` snd ` set ls)"
proof (induction ls arbitrary: km)
  case Nil
  then show ?case by (simp add: km_loop_def)
next
  case (Cons a ls)
  obtain q ks where a: "a = (q, ks)" by (cases a)
  show ?case
    unfolding a km_loop_Cons Cons.IH by (auto simp: km_keys_fold_add)
qed

lemma km_nonempty_loop:
  "\<forall>(k, ps) \<in> set km. ps \<noteq> [] \<Longrightarrow> \<forall>(k, ps) \<in> set (km_loop ls km). ps \<noteq> []"
proof (induction ls arbitrary: km)
  case Nil
  then show ?case by (simp add: km_loop_def)
next
  case (Cons a ls)
  obtain q ks where a: "a = (q, ks)" by (cases a)
  show ?case
    unfolding a km_loop_Cons
    by (rule Cons.IH) (rule km_nonempty_fold_add[OF Cons.prems])
qed

lemma keyword_map_keys: "fst ` set keyword_map = \<Union> (set ` snd ` set (leaves type_tree))"
  using km_keys_loop[of "leaves type_tree" "[]"]
  by (simp add: keyword_map_def build_keyword_map_loop)

lemma keyword_map_nonempty: "\<forall>(k, ps) \<in> set keyword_map. ps \<noteq> []"
  unfolding keyword_map_def build_keyword_map_loop
  by (rule km_nonempty_loop) simp

lemma path_scores_empty_iff: "path_scores_of s ctx = [] \<longleftrightarrow> \<not> some_keyword_matches s"
proof -
  have keys: "map fst (path_scores_of s ctx) = map fst (score_keywords keyword_map s)"
    by (cases ctx) (simp_all add: path_scores_of_def map_fst_boosts)
  have "score_keywords keyword_map s = [] \<longleftrightarrow> \<not> some_keyword_matches s"
  proof
    assume e: "score_keywords keyword_map s = []"
    show "\<not> some_keyword_matches s"
    proof
      assume "some_keyword_matches s"
      then obtain p ks k where "(p, ks) \<in> set (leaves type_tree)" "k \<in> set ks" "contains k s"
        by (auto simp: some_keyword_matches_def)
      then have "k \<in> fst ` set keyword_map"
        unfolding keyword_map_keys by force
      then obtain ps where kp: "(k, ps) \<in> set keyword_map" by auto
      with keyword_map_nonempty have "ps \<noteq> []" by auto
      then obtain q where "q \<in> set ps" by (cases ps) auto
      from matched_in_score_loop[OF kp \<open>contains k s\<close> this, of "[]"] e
      show False by (simp add: score_keywords_def)
    qed
  next
    assume n: "\<not> some_keyword_matches s"
    have "\<forall>(k, ps) \<in> set keyword_map. \<not> contains k s"
    proof (clarify)
      fix k ps assume kp: "(k, ps) \<in> set keyword_map" and c: "contains k s"
      from kp have "k \<in> fst ` set keyword_map" by force
      then obtain p ks where "(p, ks) \<in> set (leaves type_tree)" "k \<in> set ks"
        unfolding keyword_map_keys by auto
      with c n show False by (auto simp: some_keyword_matches_def)
    qed
    from score_loop_no_match[OF this] show "score_keywords keyword_map s = []"
      by (simp add: score_keywords_def)
  qed
  moreover have "path_scores_of s ctx = [] \<longleftrightarrow> score_keywords keyword_map s = []"
    using keys by (metis map_is_Nil_conv)
  ultimately show ?thesis by simp
qed

subsection \<open>The result of classify\<close>

lemma classify_scored:
  assumes ps: "path_scores_of (lower content) ctx = x # xs"
  shows "\<exists>c. classify lower content ctx = Inr c
     \<and> to_path c = fst (max_item x xs)
     \<and> split_on CHR ''/'' (fst (max_item x xs)) = [major c, minor c, detail c]
     \<and> confidence c = min (snd (max_item x xs) / 3) 1"
proof -
  let ?b = "max_item x xs"
  have "fst ?b \<in> set enumerated_paths" by (rule boosted_le_best(3)[OF ps])
  from enumerated_split[OF this] obtain a b c where sp: "split_on CHR ''/'' (fst ?b) = [a, b, c]"
    by blast
  from split_on_three_join[OF sp] have j: "fst ?b = a @ ''/'' @ b @ ''/'' @ c" .
  have "classify lower content ctx =
      Inr \<lparr>major = a, minor = b, detail = c, confidence = min (snd ?b / 3) 1\<rparr>"
    using ps sp by (simp add: classify_def Let_def)
  then show ?thesis using j sp by (simp add: to_path_def)
qed

lemma classify_argmax:
  assumes "some_keyword_matches (lower content)"
  shows "\<exists>c. classify lower content ctx = Inr c
     \<and> to_path c \<in> set enumerated_paths
     \<and> split_on CHR ''/'' (to_path c) = [major c, minor c, detail c]
     \<and> (\<forall>q. boosted_score (lower content) ctx q \<le> boosted_score (lower content) ctx (to_path c))
     \<and> confidence c = min (boosted_score (lower content) ctx (to_path c) / 3) 1
     \<and> 0 \<le> boosted_score (lower content) ctx (to_path c)"
proof -
  from assms have "path_scores_of (lower content) ctx \<noteq> []"
    by (simp add: path_scores_empty_iff)
  then obtain x xs where ps: "path_scores_of (lower content) ctx = x # xs"
    by (cases "path_scores_of (lower content) ctx") auto
  from classify_scored[of lower content ctx x xs, OF ps]
  obtain c where c: "classify lower content ctx = Inr c"
    "to_path c = fst (max_item x xs)"
    "split_on CHR ''/'' (fst (max_item x xs)) = [major c, minor c, detail c]"
    "confidence c = min (snd (max_item x xs) / 3) 1"
    by blast
  note b = boosted_le_best[OF ps]
  have "\<forall>q. boosted_score (lower content) ctx q \<le> boosted_score (lower content) ctx (to_path c)"
    using b(1) b(2) c(2) by simp
  moreover have "confidence c = min (boosted_score (lower content) ctx (to_path c) / 3) 1"
    using b(2) c(2,4) by simp
  moreover have "to_path c \<in> set enumerated_paths" using b(3) c(2) by simp
  moreover have "0 \<le> boosted_score (lower content) ctx (to_path c)" using b(2,4) c(2) by simp
  ultimately show ?thesis using c(1,2,3) by auto
qed

text \<open>
  When one path has a strictly larger score than every other, it is the
  result: a concrete classification follows from the scores of the
  specification alone.
\<close>

lemma classify_unique_max:
  assumes m: "some_keyword_matches (lower content)"
    and p: "p \<in> set enumerated_paths"
    and best: "list_all (\<lambda>q. q \<noteq> p \<longrightarrow>
        boosted_score (lower content) ctx q < boosted_score (lower content) ctx p) enumerated_paths"
    and sp: "split_on CHR ''/'' p = [a, b, d]"
  shows "classify lower content ctx =
     Inr \<lparr>major = a, minor = b, detail = d,
          confidence = min (boosted_score (lower content) ctx p / 3) 1\<rparr>"
proof -
  from classify_argmax[of lower content ctx, OF m]
  obtain c where c: "classify lower content ctx = Inr c"
    "to_path c \<in> set enumerated_paths"
    "split_on CHR ''/'' (to_path c) = [major c, minor c, detail c]"
    "\<forall>q. boosted_score (lower content) ctx q \<le> boosted_score (lower content) ctx (to_path c)"
    "confidence c = min (boosted_score (lower content) ctx (to_path c) / 3) 1"
    by blast
  have eq: "to_path c = p"
  proof (rule ccontr)
    assume "to_path c \<noteq> p"
    with best c(2) have "boosted_score (lower content) ctx (to_path c)
        < boosted_score (lower content) ctx p"
      by (auto simp: list_all_iff)
    with c(4) show False by (simp add: not_less[symmetric])
  qed
  have "major c = a \<and> minor c = b \<and> detail c = d" using c(3) sp eq by simp
  then have "c = \<lparr>major = a, minor = b, detail = d,
          confidence = min (boosted_score (lower content) ctx p / 3) 1\<rparr>"
    using c(5) eq by (cases c) simp
  then show ?thesis using c(1) by simp
qed

lemma default_in_enumerated: "to_path (default_classification content) \<in> set enumerated_paths"
  unfolding enumerated_paths_eval by (simp add: default_classification_def to_path_def)

lemma classify_default:
  assumes "\<not> some_keyword_matches (lower content)"
  shows "classify lower content ctx = Inr (default_classification content)"
proof -
  from assms have "path_scores_of (lower content) ctx = []"
    by (simp add: path_scores_empty_iff)
  then show ?thesis by (simp add: classify_def)
qed

lemma classify_total:
  "\<exists>c. classify lower content ctx = Inr c \<and> to_path c \<in> set enumerated_paths
     \<and> split_on CHR ''/'' (to_path c) = [major c, minor c, detail c]
     \<and> 0 \<le> confidence c \<and> confidence c \<le> 1"
proof (cases "some_keyword_matches (lower content)")
  case True
  from classify_argmax[of lower content ctx, OF True]
  obtain c where c: "classify lower content ctx = Inr c"
    "to_path c \<in> set enumerated_paths"
    "split_on CHR ''/'' (to_path c) = [major c, minor c, detail c]"
    "confidence c = min (boosted_score (lower content) ctx (to_path c) / 3) 1"
    "0 \<le> boosted_score (lower content) ctx (to_path c)"
    by blast
  have "0 \<le> confidence c \<and> confidence c \<le> 1" using c(4,5) by simp
  then show ?thesis using c(1,2,3) by blast
next
  case False
  let ?d = "default_classification content"
  have "split_on CHR ''/'' (to_path ?d) = [major ?d, minor ?d, detail ?d]"
    by (simp add: default_classification_def to_path_def)
  moreover have "0 \<le> confidence ?d \<and> confidence ?d \<le> 1"
    by (simp add: default_classification_def)
  ultimately show ?thesis
    using classify_default[of lower content ctx, OF False] default_in_enumerated[of content]
    by simp
qed

subsection \<open>Importance of a classification\<close>





subsection \<open>The order of the session types\<close>




subsection \<open>Evaluated classifications\<close>




lemma classify_statement:
  "classify ascii_lower demo_content (Some demo_ctx) =
       Inr \<lparr>major = ''temporal'', minor = ''conversation'', detail = ''statement'',
            confidence = 18 / 125\<rparr>"
proof -
  let ?s = "ascii_lower demo_content"
  let ?p = "''temporal/conversation/statement''"
  have m: "some_keyword_matches ?s" by code_simp
  have p: "?p \<in> set enumerated_paths" unfolding enumerated_paths_eval by simp
  have best: "list_all (\<lambda>q. q \<noteq> ?p \<longrightarrow>
      boosted_score ?s (Some demo_ctx) q < boosted_score ?s (Some demo_ctx) ?p) enumerated_paths"
    by code_simp
  have v: "boosted_score ?s (Some demo_ctx) ?p = 54 / 125" by code_simp
  have sp: "split_on CHR ''/'' ?p = [''temporal'', ''conversation'', ''statement'']" by simp
  show ?thesis
    using classify_unique_max[of ascii_lower demo_content ?p "Some demo_ctx", OF m p best sp] v
    by simp
qed

subsection \<open>The claims on classify\<close>

text \<open>
  C3: when some trigger keyword occurs in the lower-cased utterance,
  \<open>classify\<close> returns a path of the tree whose score, computed by the
  rule of the specification (\<open>boosted_score\<close>: contributions of the
  matching keywords the path owns, doubled at the start of the utterance,
  times 1.5 for the previous path and 1.2 for each session occurrence), is
  maximal among all paths, with confidence \<open>min(score / 3, 1)\<close>.
\<close>

theorem C3_classify_argmax:
  assumes "some_keyword_matches (lower content)"
  shows "\<exists>c. classify lower content ctx = Inr c
     \<and> to_path c \<in> set enumerated_paths
     \<and> (\<forall>q. boosted_score (lower content) ctx q \<le> boosted_score (lower content) ctx (to_path c))
     \<and> confidence c = min (boosted_score (lower content) ctx (to_path c) / 3) 1"
  using classify_argmax[of lower content ctx, OF assms] by blast

theorem C3_classify_argmax_witness:
  "some_keyword_matches (ascii_lower demo_content)
   \<and> classify ascii_lower demo_content (Some demo_ctx) =
       Inr \<lparr>major = ''temporal'', minor = ''conversation'', detail = ''statement'',
            confidence = 18 / 125\<rparr>
   \<and> boosted_score (ascii_lower demo_content) (Some demo_ctx)
         ''temporal/conversation/statement'' = 54 / 125
   \<and> boosted_score (ascii_lower demo_content) (Some demo_ctx)
         ''personal/identity/name'' = 2 / 5
   \<and> (\<forall>q. boosted_score (ascii_lower demo_content) (Some demo_ctx) q \<le> 54 / 125)"
proof -
  let ?s = "ascii_lower demo_content"
  let ?p = "''temporal/conversation/statement''"
  have m: "some_keyword_matches ?s" by code_simp
  have v: "boosted_score ?s (Some demo_ctx) ?p = 54 / 125" by code_simp
  have w: "boosted_score ?s (Some demo_ctx) ''personal/identity/name'' = 2 / 5" by code_simp
  from C3_classify_argmax[of ascii_lower demo_content "Some demo_ctx", OF m] classify_statement
  have "\<forall>q. boosted_score ?s (Some demo_ctx) q \<le> boosted_score ?s (Some demo_ctx) ?p"
    by (auto simp: to_path_def)
  then show ?thesis using m classify_statement v w by simp
qed

text \<open>
  C8: \<open>classify\<close> always returns a classification; its path is one of the
  enumerated paths of the tree (the three fall-back paths are among them) and
  its confidence lies in \<open>[0, 1]\<close>. When no keyword matches, the result is
  the question fall-back with 0.8 if the utterance contains a question mark,
  else the statement fall-back with 0.5 below ten words, else
  \<open>knowledge/fact/general\<close> with 0.3.
\<close>

theorem C8_classify_total:
  "(\<exists>c. classify lower content ctx = Inr c \<and> to_path c \<in> set enumerated_paths
        \<and> 0 \<le> confidence c \<and> confidence c \<le> 1)
   \<and> (\<not> some_keyword_matches (lower content) \<longrightarrow>
        classify lower content ctx =
          Inr (if 0x3F \<in> set content then
                 \<lparr>major = ''temporal'', minor = ''conversation'', detail = ''question'',
                  confidence = 8 / 10\<rparr>
               else if length (py_split content) < 10 then
                 \<lparr>major = ''temporal'', minor = ''conversation'', detail = ''statement'',
                  confidence = 5 / 10\<rparr>
               else
                 \<lparr>major = ''knowledge'', minor = ''fact'', detail = ''general'',
                  confidence = 3 / 10\<rparr>))"
  using classify_total[of lower content ctx] classify_default[of lower content ctx]
  by (auto simp: default_classification_def)

theorem C8_classify_total_witness:
  "\<not> some_keyword_matches (ascii_lower (asc ''zzz''))
   \<and> classify ascii_lower (asc ''zzz'') None =
       Inr \<lparr>major = ''temporal'', minor = ''conversation'', detail = ''statement'',
            confidence = 5 / 10\<rparr>
   \<and> \<not> some_keyword_matches (ascii_lower ten_words)
   \<and> classify ascii_lower ten_words None =
       Inr \<lparr>major = ''knowledge'', minor = ''fact'', detail = ''general'',
            confidence = 3 / 10\<rparr>"
proof -
  have n1: "\<not> some_keyword_matches (ascii_lower (asc ''zzz''))" by code_simp
  have n2: "\<not> some_keyword_matches (ascii_lower ten_words)" by code_simp
  have q1: "0x3F \<notin> set (asc ''zzz'')" "length (py_split (asc ''zzz'')) < 10" by code_simp+
  have q2: "0x3F \<notin> set ten_words" "\<not> length (py_split ten_words) < 10" by code_simp+
  from C8_classify_total[of ascii_lower "asc ''zzz''" None] n1 q1
  have r1: "classify ascii_lower (asc ''zzz'') None =
       Inr \<lparr>major = ''temporal'', minor = ''conversation'', detail = ''statement'',
            confidence = 5 / 10\<rparr>"
    by simp
  from C8_classify_total[of ascii_lower ten_words None] n2 q2
  have r2: "classify ascii_lower ten_words None =
       Inr \<lparr>major = ''knowledge'', minor = ''fact'', detail = ''general'',
            confidence = 3 / 10\<rparr>"
    by simp
  show ?thesis using n1 n2 r1 r2 by simp
qed




section \<open>Properties of the content processor\<close>

lemma length_unique_keywords_le: "length (unique_keywords seen kws) \<le> length kws"
  by (induction seen kws rule: unique_keywords.induct) auto

lemma length_extract_keywords: "length (extract_keywords content) \<le> 10"
  by (simp add: extract_keywords_def Let_def)








end
